theory Spec2Isabelle
  imports Complex_Main "HOL-Library.Sublist"
begin

section \<open>The DFGLS unit-root test of \<open>src/dfgls.py\<close>\<close>

text \<open>
  The development embeds the function \<open>dfgls\<close> (lines 11 to 138 of \<open>src/dfgls.py\<close>).
  NumPy's \<open>float64\<close> values are idealised as \<open>real\<close>: every arithmetic step of the
  source is one arithmetic step of the model, and no rounding is modelled.  Arrays live in
  a store of flat, row-major buffers, so that views (\<open>np.reshape\<close>) and copies
  (\<open>np.copy\<close>) are told apart.  The functions of statsmodels that \<open>dfgls\<close> calls are
  parameters of the model, and every call of one is written to a log.
\<close>

subsection \<open>Exceptions\<close>

text \<open>
  The exceptions of Python that a call of \<open>dfgls\<close> can raise itself, and
  \<open>LinAlgError\<close> for a failure inside a function of statsmodels.
\<close>

datatype error =
    ValueError
  | ZeroDivisionError
  | IndexError
  | NameError string
  | LinAlgError

subsection \<open>Arrays, the store and the call log\<close>

type_synonym addr = nat

text \<open>An array object: the address of its buffer and its shape.\<close>

record ndarray =
  base :: addr
  shape :: "nat list"

text \<open>What a callee reads of an array: its shape and its elements in row-major order.\<close>

type_synonym array_val = "nat list \<times> real list"

text \<open>
  The result tuple of \<open>adfuller\<close>, which is also what \<open>dfgls\<close> returns:
  \<open>(adfstat, pvalue, usedlag, nobs, critvalues)\<close>, followed by \<open>icbest\<close> when
  \<open>adfuller\<close> selected the lag length itself.  The dictionary of critical values is
  kept as an association list.
\<close>

record test_result =
  stat :: real
  pvalue :: real
  usedlag :: int
  nobs :: int
  critvalues :: "(string \<times> real) list"
  icbest :: "real option"

datatype call =
    OLS_call array_val array_val
  | ADF_call array_val string "int option" "string option"
  | CRIT_call nat string nat
  | PVAL_call real string nat

record state =
  heap :: "real list list"
  calls :: "call list"

text \<open>
  The names \<open>dfgls\<close> looks up in its module when it runs.  \<open>OLS\<close> and \<open>adfuller\<close>
  are imported at the top of the file.  \<open>mackinnoncrit\<close> and \<open>mackinnonp\<close> are used
  on lines 135 and 136 and are bound only when something has put them into the module's
  namespace: \<open>None\<close> is the unbound name.
\<close>

record globals =
  OLS_fit :: "array_val \<Rightarrow> array_val \<Rightarrow> error + real list"
  adfuller :: "array_val \<Rightarrow> string \<Rightarrow> int option \<Rightarrow> string option \<Rightarrow> error + test_result"
  mackinnoncrit :: "(nat \<Rightarrow> string \<Rightarrow> nat \<Rightarrow> real \<times> real \<times> real) option"
  mackinnonp :: "(real \<Rightarrow> string \<Rightarrow> nat \<Rightarrow> real) option"

text \<open>
  The namespace the import list of \<open>src/dfgls.py\<close> (lines 1 to 8) builds: no line
  imports or defines \<open>mackinnoncrit\<close> or \<open>mackinnonp\<close>.
\<close>

definition module_globals ::
  "(array_val \<Rightarrow> array_val \<Rightarrow> error + real list) \<Rightarrow>
   (array_val \<Rightarrow> string \<Rightarrow> int option \<Rightarrow> string option \<Rightarrow> error + test_result) \<Rightarrow> globals" where
  "module_globals ols adf =
     \<lparr>OLS_fit = ols, adfuller = adf, mackinnoncrit = None, mackinnonp = None\<rparr>"

definition ndim :: "ndarray \<Rightarrow> nat" where
  "ndim x = length (shape x)"

definition buffer :: "state \<Rightarrow> ndarray \<Rightarrow> real list" where
  "buffer s a = heap s ! base a"

definition read_array :: "state \<Rightarrow> ndarray \<Rightarrow> array_val" where
  "read_array s a = (shape a, buffer s a)"

text \<open>A new array gets a new buffer, at the first unused address.\<close>

definition alloc :: "nat list \<Rightarrow> real list \<Rightarrow> state \<Rightarrow> ndarray \<times> state" where
  "alloc shp d s = (\<lparr>base = length (heap s), shape = shp\<rparr>, s\<lparr>heap := heap s @ [d]\<rparr>)"

text \<open>An assignment into an array overwrites its buffer in place.\<close>

definition write_array :: "ndarray \<Rightarrow> real list \<Rightarrow> state \<Rightarrow> state" where
  "write_array a d s = s\<lparr>heap := (heap s)[base a := d]\<rparr>"

text \<open>\<open>np.reshape(x, (-1, 1))\<close> and \<open>x.reshape(n,)\<close>: views on the buffer of \<open>x\<close>.\<close>

definition np_reshape_column :: "ndarray \<Rightarrow> ndarray" where
  "np_reshape_column x = \<lparr>base = base x, shape = [prod_list (shape x), 1]\<rparr>"

definition reshape_flat :: "ndarray \<Rightarrow> nat \<Rightarrow> ndarray" where
  "reshape_flat x n = \<lparr>base = base x, shape = [n]\<rparr>"

definition np_copy :: "ndarray \<Rightarrow> state \<Rightarrow> ndarray \<times> state" where
  "np_copy x s = alloc (shape x) (buffer s x) s"

definition np_ones :: "nat list \<Rightarrow> state \<Rightarrow> ndarray \<times> state" where
  "np_ones shp s = alloc shp (replicate (prod_list shp) 1) s"

text \<open>\<open>np.arange(lo, hi)\<close>, as floats.\<close>

definition np_arange :: "nat \<Rightarrow> nat \<Rightarrow> real list" where
  "np_arange lo hi = map real [lo..<hi]"

text \<open>Element \<open>[i, j]\<close> of a matrix of \<open>k\<close> columns held row by row.\<close>

definition at2 :: "nat \<Rightarrow> real list \<Rightarrow> nat \<Rightarrow> nat \<Rightarrow> real" where
  "at2 k d i j = d ! (i * k + j)"

text \<open>The slices \<open>d[1:, j]\<close> and \<open>d[:-1, j]\<close> read, and the slice \<open>d[1:, j]\<close> assigned.\<close>

definition col_tail :: "nat \<Rightarrow> nat \<Rightarrow> real list \<Rightarrow> real list" where
  "col_tail k j d = map (\<lambda>i. at2 k d i j) [1..<length d div k]"

definition col_init :: "nat \<Rightarrow> nat \<Rightarrow> real list \<Rightarrow> real list" where
  "col_init k j d = map (\<lambda>i. at2 k d i j) [0..<length d div k - 1]"

definition put_col_tail :: "nat \<Rightarrow> nat \<Rightarrow> real list \<Rightarrow> real list \<Rightarrow> real list" where
  "put_col_tail k j vs d =
     map (\<lambda>p. if p mod k = j \<and> 0 < p div k then vs ! (p div k - 1) else d ! p) [0..<length d]"

text \<open>Elementwise difference of two arrays of one length.\<close>

definition sub_elems :: "real list \<Rightarrow> real list \<Rightarrow> real list" where
  "sub_elems xs ys = map (\<lambda>(a, b). a - b) (zip xs ys)"

subsection \<open>The stages of \<open>dfgls\<close>\<close>

text \<open>
  Lines 109 to 122, on the reshaped series: \<open>alpha\<close>, the regressor matrix \<open>exog\<close>
  and the quasi-differenced copy \<open>endog\<close>.  \<open>7 / x.shape[0]\<close> divides by a Python
  \<open>int\<close> and raises on an empty series.  Each augmented assignment evaluates its right
  side from the buffer as it stands, then writes the slice.  The stage hands back the
  three locals it has set.
\<close>

definition alpha_of :: "string \<Rightarrow> nat \<Rightarrow> real" where
  "alpha_of regression n =
     (if regression = ''c'' then 1 - (7 / real n) else 1 - (13.5 / real n))"

text \<open>Line 117, \<open>endog[1:] -= alpha * endog[:-1]\<close>, on the buffer of \<open>endog\<close>.\<close>

definition qd_endog :: "real \<Rightarrow> real list \<Rightarrow> real list" where
  "qd_endog alpha e = take 1 e @ sub_elems (drop 1 e) (map (\<lambda>v. alpha * v) (butlast e))"

text \<open>Line 119, \<open>exog[1:, 0] -= alpha\<close>, on the buffer of \<open>exog\<close> (\<open>k\<close> columns).\<close>

definition qd_ones :: "real \<Rightarrow> nat \<Rightarrow> real list \<Rightarrow> real list" where
  "qd_ones alpha k d = put_col_tail k 0 (map (\<lambda>v. v - alpha) (col_tail k 0 d)) d"

text \<open>Line 121, \<open>exog[1:, 1] = np.arange(2, x.shape[0] + 1)\<close>.\<close>

definition set_trend :: "nat \<Rightarrow> nat \<Rightarrow> real list \<Rightarrow> real list" where
  "set_trend n k d = put_col_tail k 1 (np_arange 2 (n + 1)) d"

text \<open>Line 122, \<open>exog[1:, 1] -= alpha * exog[:-1, 1]\<close>.\<close>

definition qd_trend :: "real \<Rightarrow> nat \<Rightarrow> real list \<Rightarrow> real list" where
  "qd_trend alpha k d =
     put_col_tail k 1 (sub_elems (col_tail k 1 d) (map (\<lambda>v. alpha * v) (col_init k 1 d))) d"

definition aux_regression ::
  "string \<Rightarrow> ndarray \<Rightarrow> state \<Rightarrow> (error + real \<times> ndarray \<times> ndarray) \<times> state" where
  "aux_regression regression x s =
     (let n = shape x ! 0 in
      if n = 0 then (Inl ZeroDivisionError, s)
      else
        let alpha = alpha_of regression n;
            k = (if regression = ''c'' then 1 else 2);
            (exog, s1) = np_ones [n, k] s;
            (endog, s2) = np_copy x s1;
            s3 = write_array endog (qd_endog alpha (buffer s2 endog)) s2;
            s4 = write_array exog (qd_ones alpha k (buffer s3 exog)) s3;
            s6 = (if regression = ''ct'' then
                    let s5 = write_array exog (set_trend n k (buffer s4 exog)) s4
                    in write_array exog (qd_trend alpha k (buffer s5 exog)) s5
                  else s4)
        in (Inr (alpha, endog, exog), s6))"

text \<open>Line 124: the auxiliary regression, one logged call of \<open>OLS\<close>.\<close>

definition call_OLS ::
  "globals \<Rightarrow> ndarray \<Rightarrow> ndarray \<Rightarrow> state \<Rightarrow> (error + real list) \<times> state" where
  "call_OLS g endog exog s =
     (let e = read_array s endog; ex = read_array s exog
      in (OLS_fit g e ex, s\<lparr>calls := calls s @ [OLS_call e ex]\<rparr>))"

text \<open>
  Lines 127 to 129: the original series less the fitted constant and, for \<open>'ct'\<close>, the
  fitted trend.  The copy is made before \<open>arc[0]\<close> is read; \<open>arc[0]\<close> and
  \<open>arc[1]\<close> raise when \<open>arc\<close> is too short.
\<close>

definition detrend ::
  "string \<Rightarrow> ndarray \<Rightarrow> real list \<Rightarrow> state \<Rightarrow> (error + ndarray) \<times> state" where
  "detrend regression x arc s =
     (let n = shape x ! 0;
          (tmp, s1) = np_copy (reshape_flat x n) s
      in if length arc = 0 then (Inl IndexError, s1)
         else
           let (dtx, s2) = alloc (shape tmp) (map (\<lambda>v. v - arc ! 0) (buffer s1 tmp)) s1
           in if regression = ''ct'' then
                if length arc < 2 then (Inl IndexError, s2)
                else (Inr dtx,
                      write_array dtx
                        (sub_elems (buffer s2 dtx)
                           (map (\<lambda>t. arc ! 1 * t) (np_arange 1 (n + 1)))) s2)
              else (Inr dtx, s2))"

text \<open>Line 132: the ADF test on the detrended series, one logged call of \<open>adfuller\<close>.\<close>

definition call_adfuller ::
  "globals \<Rightarrow> ndarray \<Rightarrow> string \<Rightarrow> int option \<Rightarrow> string option \<Rightarrow> state \<Rightarrow>
   (error + test_result) \<times> state" where
  "call_adfuller g dtx regression maxlag autolag s =
     (let d = read_array s dtx
      in (adfuller g d regression maxlag autolag,
          s\<lparr>calls := calls s @ [ADF_call d regression maxlag autolag]\<rparr>))"

text \<open>
  Lines 135 to 137, run for \<open>'ct'\<close> only.  \<open>len(dtx)\<close> is the first dimension of
  \<open>dtx\<close>.  The new result is a list of five items: it has no \<open>icbest\<close>.
\<close>

definition correct_ct ::
  "globals \<Rightarrow> test_result \<Rightarrow> ndarray \<Rightarrow> state \<Rightarrow> (error + test_result) \<times> state" where
  "correct_ct g res dtx s =
     (case mackinnoncrit g of
        None \<Rightarrow> (Inl (NameError ''mackinnoncrit''), s)
      | Some crit \<Rightarrow>
          let len_dtx = shape dtx ! 0;
              cvs = crit 1 ''c'' len_dtx;
              s1 = s\<lparr>calls := calls s @ [CRIT_call 1 ''c'' len_dtx]\<rparr>
          in (case mackinnonp g of
                None \<Rightarrow> (Inl (NameError ''mackinnonp''), s1)
              | Some pval \<Rightarrow>
                  (Inr \<lparr>stat = stat res, pvalue = pval (stat res) ''c'' 1,
                        usedlag = usedlag res, nobs = nobs res,
                        critvalues = [(''1%'', fst cvs), (''5%'', fst (snd cvs)),
                                      (''10%'', snd (snd cvs))],
                        icbest = None\<rparr>,
                   s1\<lparr>calls := calls s1 @ [PVAL_call (stat res) ''c'' 1]\<rparr>)))"

subsection \<open>The entry point\<close>

definition dfgls ::
  "globals \<Rightarrow> ndarray \<Rightarrow> string \<Rightarrow> int option \<Rightarrow> string option \<Rightarrow> state \<Rightarrow>
   (error + test_result) \<times> state" where
  "dfgls g x regression maxlag autolag s =
     (if regression \<notin> set [''c'', ''ct''] then (Inl ValueError, s)
      else if 2 < ndim x \<or> (ndim x = 2 \<and> shape x ! 1 \<noteq> 1) then (Inl ValueError, s)
      else
        let xr = np_reshape_column x in
        case aux_regression regression xr s of
          (Inl e, s1) \<Rightarrow> (Inl e, s1)
        | (Inr (alpha, endog, exog), s1) \<Rightarrow>
            (case call_OLS g endog exog s1 of
               (Inl e, s2) \<Rightarrow> (Inl e, s2)
             | (Inr arc, s2) \<Rightarrow>
                 (case detrend regression xr arc s2 of
                    (Inl e, s3) \<Rightarrow> (Inl e, s3)
                  | (Inr dtx, s3) \<Rightarrow>
                      (case call_adfuller g dtx ''nc'' maxlag autolag s3 of
                         (Inl e, s4) \<Rightarrow> (Inl e, s4)
                       | (Inr res, s4) \<Rightarrow>
                           if regression = ''ct'' then correct_ct g res dtx s4
                           else (Inr res, s4)))))"

subsection \<open>What a run leaves in the store and in the log\<close>

text \<open>
  The definitions of this part are not code of the repository: they name the values that
  the stages above compute, so that the theorems can speak of them.  \<open>exog_buf\<close> is the
  buffer of \<open>exog\<close> after line 122 and \<open>dtx_buf\<close> the buffer of \<open>dtx\<close> after
  line 129.
\<close>

definition exog_buf :: "string \<Rightarrow> real \<Rightarrow> nat \<Rightarrow> real list" where
  "exog_buf regression alpha n =
     (let k = (if regression = ''c'' then 1 else 2);
          d1 = qd_ones alpha k (replicate (n * k) 1)
      in if regression = ''ct'' then qd_trend alpha k (set_trend n k d1) else d1)"

definition dtx_buf :: "string \<Rightarrow> real list \<Rightarrow> real list \<Rightarrow> real list" where
  "dtx_buf regression arc series =
     (let d = map (\<lambda>v. v - arc ! 0) series
      in if regression = ''ct'' then
           sub_elems d (map (\<lambda>t. arc ! 1 * t) (np_arange 1 (length series + 1)))
         else d)"

text \<open>
  A well-formed array has its buffer in the store, with as many elements as its shape says.
  A valid input is a regression option of the two the validation accepts and a well-formed
  array of at most one dimension, or of two with one column, that holds at least one element.
\<close>

definition wf_array :: "state \<Rightarrow> ndarray \<Rightarrow> bool" where
  "wf_array s x \<longleftrightarrow> base x < length (heap s) \<and> length (buffer s x) = prod_list (shape x)"

definition valid_input :: "ndarray \<Rightarrow> string \<Rightarrow> state \<Rightarrow> bool" where
  "valid_input x regression s \<longleftrightarrow>
     regression \<in> set [''c'', ''ct''] \<and>
     \<not> (2 < ndim x \<or> (ndim x = 2 \<and> shape x ! 1 \<noteq> 1)) \<and>
     wf_array s x \<and>
     0 < length (buffer s x)"

text \<open>The arguments of the two logged calls, as functions of the series.\<close>

definition ncols :: "string \<Rightarrow> nat" where
  "ncols regression = (if regression = ''c'' then 1 else 2)"

definition ols_endog :: "string \<Rightarrow> real list \<Rightarrow> array_val" where
  "ols_endog regression series =
     ([length series, 1], qd_endog (alpha_of regression (length series)) series)"

definition ols_exog :: "string \<Rightarrow> real list \<Rightarrow> array_val" where
  "ols_exog regression series =
     ([length series, ncols regression],
      exog_buf regression (alpha_of regression (length series)) (length series))"

definition adf_arg :: "string \<Rightarrow> real list \<Rightarrow> real list \<Rightarrow> array_val" where
  "adf_arg regression arc series = ([length series], dtx_buf regression arc series)"

text \<open>The state after the call of \<open>OLS\<close> and after the call of \<open>adfuller\<close>.\<close>

definition after_OLS :: "ndarray \<Rightarrow> string \<Rightarrow> state \<Rightarrow> state" where
  "after_OLS x regression s =
     s\<lparr>heap := heap s @ [snd (ols_exog regression (buffer s x)),
                          snd (ols_endog regression (buffer s x))],
       calls := calls s @ [OLS_call (ols_endog regression (buffer s x))
                                    (ols_exog regression (buffer s x))]\<rparr>"

definition after_ADF ::
  "ndarray \<Rightarrow> string \<Rightarrow> real list \<Rightarrow> int option \<Rightarrow> string option \<Rightarrow> state \<Rightarrow> state" where
  "after_ADF x regression arc maxlag autolag s =
     s\<lparr>heap := heap s @ [snd (ols_exog regression (buffer s x)),
                          snd (ols_endog regression (buffer s x)),
                          buffer s x, dtx_buf regression arc (buffer s x)],
       calls := calls s @ [OLS_call (ols_endog regression (buffer s x))
                                    (ols_exog regression (buffer s x)),
                           ADF_call (adf_arg regression arc (buffer s x)) ''nc'' maxlag autolag]\<rparr>"

text \<open>The calls a run has added to the log, and the calls of \<open>adfuller\<close> among them.\<close>

definition calls_during :: "state \<Rightarrow> state \<Rightarrow> call list" where
  "calls_during s s' = drop (length (calls s)) (calls s')"

fun is_ADF_call :: "call \<Rightarrow> bool" where
  "is_ADF_call (ADF_call d regression maxlag autolag) = True"
| "is_ADF_call c = False"

subsection \<open>A small run\<close>

text \<open>
  Stand-ins for the functions of statsmodels, a series of four observations and a store
  that holds it: the inputs at which the theorems below are instantiated.  \<open>example_adf\<close>
  reports two observations fewer than it was given and an \<open>icbest\<close> when asked to select
  the lag length; \<open>example_crit\<close> depends on \<open>nobs\<close>.
\<close>

definition example_ols :: "array_val \<Rightarrow> array_val \<Rightarrow> error + real list" where
  "example_ols e ex = Inr (take (fst ex ! 1) [1 / 2, 1 / 4])"

definition example_adf ::
  "array_val \<Rightarrow> string \<Rightarrow> int option \<Rightarrow> string option \<Rightarrow> error + test_result" where
  "example_adf d regression maxlag autolag =
     Inr \<lparr>stat = snd d ! 0, pvalue = 1 / 10, usedlag = 1,
          nobs = int (length (snd d)) - 2,
          critvalues = [(''1%'', - 3), (''5%'', - 2), (''10%'', - 1)],
          icbest = (case autolag of None \<Rightarrow> None | Some c \<Rightarrow> Some 7)\<rparr>"

definition example_crit :: "nat \<Rightarrow> string \<Rightarrow> nat \<Rightarrow> real \<times> real \<times> real" where
  "example_crit N regression n = (- real n, - 2, - 1)"

definition example_pval :: "real \<Rightarrow> string \<Rightarrow> nat \<Rightarrow> real" where
  "example_pval st regression N = st / 2"

definition example_globals :: globals where
  "example_globals =
     \<lparr>OLS_fit = example_ols, adfuller = example_adf,
      mackinnoncrit = Some example_crit, mackinnonp = Some example_pval\<rparr>"

definition example_state :: state where
  "example_state = \<lparr>heap = [[1, 2, 4, 8]], calls = []\<rparr>"

definition example_x :: ndarray where
  "example_x = \<lparr>base = 0, shape = [4]\<rparr>"

section \<open>Properties\<close>

subsection \<open>The buffers, element by element\<close>

lemma sub_elems_length: "length (sub_elems xs ys) = min (length xs) (length ys)"
  by (simp add: sub_elems_def)

lemma sub_elems_nth:
  "i < length xs \<Longrightarrow> i < length ys \<Longrightarrow> sub_elems xs ys ! i = xs ! i - ys ! i"
  by (simp add: sub_elems_def)

lemma qd_endog_length: "length (qd_endog alpha e) = length e"
  by (cases e) (simp_all add: qd_endog_def sub_elems_length)

lemma qd_endog_0: "0 < length e \<Longrightarrow> qd_endog alpha e ! 0 = e ! 0"
  by (cases e) (simp_all add: qd_endog_def)

lemma qd_endog_nth:
  assumes "0 < i" "i < length e"
  shows "qd_endog alpha e ! i = e ! i - alpha * e ! (i - 1)"
proof -
  obtain j where j: "i = Suc j" using assms(1) by (cases i) auto
  have l: "j < length (drop 1 e)" "j < length (map (\<lambda>v. alpha * v) (butlast e))"
    using assms j by auto
  have "qd_endog alpha e ! i = sub_elems (drop 1 e) (map (\<lambda>v. alpha * v) (butlast e)) ! j"
    using assms j by (simp add: qd_endog_def nth_append)
  also have "\<dots> = drop 1 e ! j - map (\<lambda>v. alpha * v) (butlast e) ! j"
    using l by (rule sub_elems_nth)
  also have "\<dots> = e ! i - alpha * e ! (i - 1)"
    using assms j by (simp add: nth_butlast)
  finally show ?thesis .
qed

lemma put_col_tail_length: "length (put_col_tail k j vs d) = length d"
  by (simp add: put_col_tail_def)

lemma put_col_tail_nth:
  "p < length d \<Longrightarrow> put_col_tail k j vs d ! p =
     (if p mod k = j \<and> 0 < p div k then vs ! (p div k - 1) else d ! p)"
  by (simp add: put_col_tail_def)

lemma at2_put_col_tail:
  assumes "j' < k" "i * k + j' < length d"
  shows "at2 k (put_col_tail k j vs d) i j' = (if j' = j \<and> 0 < i then vs ! (i - 1) else at2 k d i j')"
  using assms by (simp add: at2_def put_col_tail_nth)

lemma col_tail_length: "length (col_tail k j d) = length d div k - 1"
  by (simp add: col_tail_def)

lemma col_init_length: "length (col_init k j d) = length d div k - 1"
  by (simp add: col_init_def)

lemma col_tail_nth: "i < length d div k - 1 \<Longrightarrow> col_tail k j d ! i = at2 k d (Suc i) j"
  by (simp add: col_tail_def)

lemma col_init_nth: "i < length d div k - 1 \<Longrightarrow> col_init k j d ! i = at2 k d i j"
  by (simp add: col_init_def)

lemma qd_ones_length: "length (qd_ones alpha k d) = length d"
  by (simp add: qd_ones_def put_col_tail_length)

lemma set_trend_length: "length (set_trend n k d) = length d"
  by (simp add: set_trend_def put_col_tail_length)

lemma qd_trend_length: "length (qd_trend alpha k d) = length d"
  by (simp add: qd_trend_def put_col_tail_length)

lemma idx_bound: "i < n \<Longrightarrow> j < k \<Longrightarrow> i * k + j < n * (k::nat)"
proof -
  assume a: "i < n" "j < k"
  have "i * k + j < i * k + k" using a by simp
  also have "\<dots> = Suc i * k" by simp
  also have "\<dots> \<le> n * k" using a by (intro mult_le_mono1) simp
  finally show ?thesis .
qed

lemma at2_qd_ones:
  assumes "length d = n * k" "i < n" "j < k"
  shows "at2 k (qd_ones alpha k d) i j =
           (if j = 0 \<and> 0 < i then at2 k d i 0 - alpha else at2 k d i j)"
proof -
  have b: "i * k + j < length d" using assms by (simp add: idx_bound)
  have k: "0 < k" using assms by simp
  have dv: "length d div k = n" using assms k by simp
  show ?thesis
  proof (cases "j = 0 \<and> 0 < i")
    case True
    then have "i - 1 < length d div k - 1" using assms dv by auto
    then have "map (\<lambda>v. v - alpha) (col_tail k 0 d) ! (i - 1) = at2 k d i 0 - alpha"
      using True by (simp add: col_tail_length col_tail_nth)
    then show ?thesis
      using True assms(3) b by (simp add: qd_ones_def at2_put_col_tail)
  next
    case False
    then show ?thesis
      using assms(3) b by (auto simp add: qd_ones_def at2_put_col_tail)
  qed
qed

lemma at2_set_trend:
  assumes "length d = n * k" "i < n" "j < k"
  shows "at2 k (set_trend n k d) i j =
           (if j = 1 \<and> 0 < i then real (Suc i) else at2 k d i j)"
proof -
  have b: "i * k + j < length d" using assms by (simp add: idx_bound)
  show ?thesis
  proof (cases "j = 1 \<and> 0 < i")
    case True
    then obtain m where m: "i = Suc m" by (cases i) auto
    have "2 + m < n + 1" using assms(2) m by simp
    then have "[2..<n + 1] ! m = 2 + m" by (rule nth_upt)
    then have "np_arange 2 (n + 1) ! (i - 1) = real (Suc i)"
      using assms(2) m by (simp add: np_arange_def del: upt_Suc)
    then show ?thesis
      using True assms(3) b by (simp add: set_trend_def at2_put_col_tail)
  next
    case False
    then show ?thesis
      using assms(3) b by (auto simp add: set_trend_def at2_put_col_tail)
  qed
qed

lemma at2_qd_trend:
  assumes "length d = n * k" "i < n" "j < k"
  shows "at2 k (qd_trend alpha k d) i j =
           (if j = 1 \<and> 0 < i then at2 k d i 1 - alpha * at2 k d (i - 1) 1 else at2 k d i j)"
proof -
  have b: "i * k + j < length d" using assms by (simp add: idx_bound)
  have k: "0 < k" using assms by simp
  have dv: "length d div k = n" using assms k by simp
  show ?thesis
  proof (cases "j = 1 \<and> 0 < i")
    case True
    then have l: "i - 1 < length d div k - 1" using assms dv by auto
    have "sub_elems (col_tail k 1 d) (map (\<lambda>v. alpha * v) (col_init k 1 d)) ! (i - 1)
            = col_tail k 1 d ! (i - 1) - map (\<lambda>v. alpha * v) (col_init k 1 d) ! (i - 1)"
      using l by (intro sub_elems_nth) (simp_all add: col_tail_length col_init_length)
    also have "\<dots> = at2 k d i 1 - alpha * at2 k d (i - 1) 1"
      using l True by (simp add: col_tail_nth col_init_nth col_init_length)
    finally show ?thesis
      using True assms(3) b by (simp add: qd_trend_def at2_put_col_tail)
  next
    case False
    then show ?thesis
      using assms(3) b by (auto simp add: qd_trend_def at2_put_col_tail)
  qed
qed

lemma at2_replicate: "i < n \<Longrightarrow> j < k \<Longrightarrow> at2 k (replicate (n * k) v) i j = v"
  by (simp add: at2_def idx_bound)

lemma exog_buf_length:
  "length (exog_buf regression alpha n) = n * (if regression = ''c'' then 1 else 2)"
  by (simp add: exog_buf_def Let_def qd_ones_length set_trend_length qd_trend_length)

lemma exog_buf_col0:
  assumes "i < n"
  shows "at2 (if regression = ''c'' then 1 else 2) (exog_buf regression alpha n) i 0 =
           (if i = 0 then 1 else 1 - alpha)"
  using assms
  by (simp add: exog_buf_def Let_def at2_qd_trend at2_set_trend at2_qd_ones at2_replicate
        qd_ones_length set_trend_length)

lemma exog_buf_col1:
  assumes "i < n"
  shows "at2 2 (exog_buf ''ct'' alpha n) i 1 =
           (if i = 0 then 1 else real (i + 1) - alpha * real i)"
proof (cases i)
  case 0
  then show ?thesis
    using assms
    by (simp add: exog_buf_def Let_def at2_qd_trend at2_set_trend at2_qd_ones at2_replicate
        qd_ones_length set_trend_length)
next
  case (Suc m)
  then have m: "m < n" using assms by simp
  show ?thesis
    using assms Suc m
    by (cases m)
       (simp_all add: exog_buf_def Let_def at2_qd_trend at2_set_trend at2_qd_ones at2_replicate
        qd_ones_length set_trend_length)
qed

subsection \<open>The stages on a valid input\<close>

lemma aux_regression_run:
  assumes "0 < shape x ! 0" "base x < length (heap s)"
  shows "aux_regression regression x s =
     (Inr (alpha_of regression (shape x ! 0),
           \<lparr>base = Suc (length (heap s)), shape = shape x\<rparr>,
           \<lparr>base = length (heap s), shape = [shape x ! 0, ncols regression]\<rparr>),
      s\<lparr>heap := heap s @ [exog_buf regression (alpha_of regression (shape x ! 0)) (shape x ! 0),
                           qd_endog (alpha_of regression (shape x ! 0)) (buffer s x)]\<rparr>)"
  using assms
  by (simp add: aux_regression_def Let_def np_ones_def np_copy_def alloc_def write_array_def
        buffer_def exog_buf_def ncols_def nth_append list_update_append)

lemma detrend_run:
  assumes "base x < length (heap s)" "ncols regression \<le> length arc" "regression \<in> set [''c'', ''ct'']"
    "shape x ! 0 = length (buffer s x)"
  shows "detrend regression x arc s =
     (Inr \<lparr>base = Suc (length (heap s)), shape = [shape x ! 0]\<rparr>,
      s\<lparr>heap := heap s @ [buffer s x, dtx_buf regression arc (buffer s x)]\<rparr>)"
  using assms
  by (auto simp add: detrend_def Let_def np_copy_def alloc_def write_array_def reshape_flat_def
        buffer_def dtx_buf_def ncols_def nth_append list_update_append)

lemma valid_input_reshape:
  assumes "valid_input x regression s"
  shows "np_reshape_column x = \<lparr>base = base x, shape = [length (buffer s x), 1]\<rparr>"
  using assms by (simp add: valid_input_def wf_array_def np_reshape_column_def)

lemma dfgls_to_OLS:
  assumes "valid_input x regression s"
  shows "dfgls g x regression maxlag autolag s =
     (case OLS_fit g (ols_endog regression (buffer s x)) (ols_exog regression (buffer s x)) of
        Inl err \<Rightarrow> (Inl err, after_OLS x regression s)
      | Inr arc \<Rightarrow>
          (case detrend regression (np_reshape_column x) arc (after_OLS x regression s) of
             (Inl err, s3) \<Rightarrow> (Inl err, s3)
           | (Inr dtx, s3) \<Rightarrow>
               (case call_adfuller g dtx ''nc'' maxlag autolag s3 of
                  (Inl err, s4) \<Rightarrow> (Inl err, s4)
                | (Inr res, s4) \<Rightarrow>
                    if regression = ''ct'' then correct_ct g res dtx s4 else (Inr res, s4))))"
proof -
  let ?xr = "\<lparr>base = base x, shape = [length (buffer s x), 1]\<rparr>"
  have xr: "np_reshape_column x = ?xr" using assms by (rule valid_input_reshape)
  have pre: "regression \<in> set [''c'', ''ct'']"
    "\<not> (2 < ndim x \<or> (ndim x = 2 \<and> shape x ! 1 \<noteq> 1))"
    using assms by (simp_all add: valid_input_def wf_array_def)
  have a: "aux_regression regression ?xr s =
     (Inr (alpha_of regression (length (buffer s x)),
           \<lparr>base = Suc (length (heap s)), shape = [length (buffer s x), 1]\<rparr>,
           \<lparr>base = length (heap s), shape = [length (buffer s x), ncols regression]\<rparr>),
      s\<lparr>heap := heap s @ [exog_buf regression (alpha_of regression (length (buffer s x))) (length (buffer s x)),
                           qd_endog (alpha_of regression (length (buffer s x))) (buffer s x)]\<rparr>)"
  proof -
    have "0 < length (buffer s x)" using assms unfolding valid_input_def by blast
    then have p: "0 < shape ?xr ! 0" by simp
    have b: "base ?xr < length (heap s)" using assms unfolding valid_input_def wf_array_def by simp
    from aux_regression_run [OF p b, of regression] show ?thesis
      by (simp add: buffer_def)
  qed
  have c: "call_OLS g \<lparr>base = Suc (length (heap s)), shape = [length (buffer s x), 1]\<rparr>
             \<lparr>base = length (heap s), shape = [length (buffer s x), ncols regression]\<rparr>
             (s\<lparr>heap := heap s @ [exog_buf regression (alpha_of regression (length (buffer s x))) (length (buffer s x)),
                           qd_endog (alpha_of regression (length (buffer s x))) (buffer s x)]\<rparr>)
         = (OLS_fit g (ols_endog regression (buffer s x)) (ols_exog regression (buffer s x)),
            after_OLS x regression s)"
    by (simp add: call_OLS_def read_array_def buffer_def ols_endog_def ols_exog_def
          after_OLS_def nth_append Let_def)
  have v: "(regression \<notin> set [''c'', ''ct'']) = False"
    "(2 < ndim x \<or> (ndim x = 2 \<and> shape x ! 1 \<noteq> 1)) = False"
    using pre by simp_all
  show ?thesis
    unfolding dfgls_def v Let_def xr
    by (simp only: if_False a c prod.case sum.case)
qed

lemma after_OLS_simps:
  "calls (after_OLS x regression s) =
     calls s @ [OLS_call (ols_endog regression (buffer s x)) (ols_exog regression (buffer s x))]"
  "length (heap (after_OLS x regression s)) = length (heap s) + 2"
  "base x < length (heap s) \<Longrightarrow> buffer (after_OLS x regression s) \<lparr>base = base x, shape = shp\<rparr> = buffer s x"
  by (simp_all add: after_OLS_def buffer_def nth_append)

lemma dfgls_arc_short:
  assumes "valid_input x regression s"
    and "OLS_fit g (ols_endog regression (buffer s x)) (ols_exog regression (buffer s x)) = Inr arc"
    and "length arc < ncols regression"
  shows "fst (dfgls g x regression maxlag autolag s) = Inl IndexError"
    and "calls (snd (dfgls g x regression maxlag autolag s)) =
           calls s @ [OLS_call (ols_endog regression (buffer s x)) (ols_exog regression (buffer s x))]"
proof -
  have r: "regression = ''c'' \<or> regression = ''ct''"
    using assms(1) by (simp add: valid_input_def wf_array_def)
  have xr: "np_reshape_column x = \<lparr>base = base x, shape = [length (buffer s x), 1]\<rparr>"
    using assms(1) by (rule valid_input_reshape)
  have d: "fst (detrend regression (np_reshape_column x) arc (after_OLS x regression s)) = Inl IndexError
         \<and> calls (snd (detrend regression (np_reshape_column x) arc (after_OLS x regression s)))
             = calls (after_OLS x regression s)"
    using r assms(3)
    by (auto simp add: detrend_def Let_def ncols_def np_copy_def alloc_def split: prod.split)
  have e: "dfgls g x regression maxlag autolag s =
             (Inl IndexError, snd (detrend regression (np_reshape_column x) arc (after_OLS x regression s)))"
    using d unfolding dfgls_to_OLS [OF assms(1)] assms(2)
    by (cases "detrend regression (np_reshape_column x) arc (after_OLS x regression s)") simp
  show "fst (dfgls g x regression maxlag autolag s) = Inl IndexError"
    unfolding e by simp
  show "calls (snd (dfgls g x regression maxlag autolag s)) =
           calls s @ [OLS_call (ols_endog regression (buffer s x)) (ols_exog regression (buffer s x))]"
    unfolding e using d by (simp add: after_OLS_simps)
qed

lemma dfgls_to_ADF:
  assumes "valid_input x regression s"
    and "OLS_fit g (ols_endog regression (buffer s x)) (ols_exog regression (buffer s x)) = Inr arc"
    and "ncols regression \<le> length arc"
  shows "dfgls g x regression maxlag autolag s =
     (case adfuller g (adf_arg regression arc (buffer s x)) ''nc'' maxlag autolag of
        Inl err \<Rightarrow> (Inl err, after_ADF x regression arc maxlag autolag s)
      | Inr res \<Rightarrow>
          if regression = ''ct'' then
            correct_ct g res \<lparr>base = length (heap s) + 3, shape = [length (buffer s x)]\<rparr>
              (after_ADF x regression arc maxlag autolag s)
          else (Inr res, after_ADF x regression arc maxlag autolag s))"
proof -
  let ?xr = "\<lparr>base = base x, shape = [length (buffer s x), 1]\<rparr>"
  let ?s2 = "after_OLS x regression s"
  have xr: "np_reshape_column x = ?xr" using assms(1) by (rule valid_input_reshape)
  have r: "regression \<in> set [''c'', ''ct'']" and b: "base x < length (heap s)"
    using assms(1) by (simp_all add: valid_input_def wf_array_def)
  have b2: "base ?xr < length (heap ?s2)" using b by (simp add: after_OLS_simps)
  have bf: "buffer ?s2 ?xr = buffer s x" using b by (rule after_OLS_simps)
  have sh: "shape ?xr ! 0 = length (buffer ?s2 ?xr)" unfolding bf by simp
  have d: "detrend regression ?xr arc ?s2 =
     (Inr \<lparr>base = length (heap s) + 3, shape = [length (buffer s x)]\<rparr>,
      ?s2\<lparr>heap := heap ?s2 @ [buffer s x, dtx_buf regression arc (buffer s x)]\<rparr>)"
    using detrend_run [OF b2 assms(3) r sh] unfolding bf by (simp add: after_OLS_simps)
  have c: "call_adfuller g \<lparr>base = length (heap s) + 3, shape = [length (buffer s x)]\<rparr> ''nc'' maxlag autolag
             (?s2\<lparr>heap := heap ?s2 @ [buffer s x, dtx_buf regression arc (buffer s x)]\<rparr>)
         = (adfuller g (adf_arg regression arc (buffer s x)) ''nc'' maxlag autolag,
            after_ADF x regression arc maxlag autolag s)"
    by (simp add: call_adfuller_def read_array_def buffer_def adf_arg_def after_OLS_def
          after_ADF_def nth_append Let_def)
  show ?thesis
    unfolding dfgls_to_OLS [OF assms(1)] assms(2) xr
    by (simp only: d c prod.case sum.case)
qed

subsection \<open>The store and the log of a run\<close>

lemma aux_regression_heap:
  "aux_regression regression x s = (r, s') \<Longrightarrow> prefix (heap s) (heap s')"
  by (auto simp add: aux_regression_def Let_def np_ones_def np_copy_def alloc_def write_array_def
        list_update_append split: if_splits)

lemma call_OLS_heap: "call_OLS g endog exog s = (r, s') \<Longrightarrow> heap s' = heap s"
  by (auto simp add: call_OLS_def Let_def)

lemma detrend_heap:
  "detrend regression x arc s = (r, s') \<Longrightarrow> prefix (heap s) (heap s')"
  by (auto simp add: detrend_def Let_def np_copy_def alloc_def write_array_def
        list_update_append split: if_splits)

lemma call_adfuller_heap:
  "call_adfuller g dtx regression maxlag autolag s = (r, s') \<Longrightarrow> heap s' = heap s"
  by (auto simp add: call_adfuller_def Let_def)

lemma correct_ct_heap: "correct_ct g res dtx s = (r, s') \<Longrightarrow> heap s' = heap s"
  by (auto simp add: correct_ct_def Let_def split: option.splits)

lemma dfgls_checked:
  assumes "\<not> (regression \<notin> set [''c'', ''ct''] \<or> 2 < ndim x \<or> (ndim x = 2 \<and> shape x ! 1 \<noteq> 1))"
  shows "dfgls g x regression maxlag autolag s =
     (case aux_regression regression (np_reshape_column x) s of
        (Inl e, s1) \<Rightarrow> (Inl e, s1)
      | (Inr (alpha, endog, exog), s1) \<Rightarrow>
          (case call_OLS g endog exog s1 of
             (Inl e, s2) \<Rightarrow> (Inl e, s2)
           | (Inr arc, s2) \<Rightarrow>
               (case detrend regression (np_reshape_column x) arc s2 of
                  (Inl e, s3) \<Rightarrow> (Inl e, s3)
                | (Inr dtx, s3) \<Rightarrow>
                    (case call_adfuller g dtx ''nc'' maxlag autolag s3 of
                       (Inl e, s4) \<Rightarrow> (Inl e, s4)
                     | (Inr res, s4) \<Rightarrow>
                         if regression = ''ct'' then correct_ct g res dtx s4
                         else (Inr res, s4)))))"
proof -
  have v: "(regression \<notin> set [''c'', ''ct'']) = False"
    "(2 < ndim x \<or> (ndim x = 2 \<and> shape x ! 1 \<noteq> 1)) = False"
    using assms by simp_all
  show ?thesis unfolding dfgls_def v Let_def by (simp only: if_False)
qed

lemma dfgls_heap: "prefix (heap s) (heap (snd (dfgls g x regression maxlag autolag s)))"
proof (cases "regression \<notin> set [''c'', ''ct''] \<or> 2 < ndim x \<or> (ndim x = 2 \<and> shape x ! 1 \<noteq> 1)")
  case True
  then have "dfgls g x regression maxlag autolag s = (Inl ValueError, s)"
    by (auto simp add: dfgls_def)
  then show ?thesis by simp
next
  case False
  note ch = dfgls_checked [OF False]
  let ?xr = "np_reshape_column x"
  obtain r1 s1 where a: "aux_regression regression ?xr s = (r1, s1)" by force
  have p1: "prefix (heap s) (heap s1)" using a by (rule aux_regression_heap)
  show ?thesis
  proof (cases r1)
    case (Inl e)
    then have "dfgls g x regression maxlag autolag s = (Inl e, s1)"
      unfolding ch using a by simp
    then show ?thesis using p1 by simp
  next
    case (Inr t)
    obtain alpha endog exog where t: "t = (alpha, endog, exog)" by (cases t) auto
    obtain r2 s2 where b: "call_OLS g endog exog s1 = (r2, s2)" by force
    have p2: "prefix (heap s) (heap s2)" using p1 call_OLS_heap [OF b] by simp
    show ?thesis
    proof (cases r2)
      case (Inl e)
      then have "dfgls g x regression maxlag autolag s = (Inl e, s2)"
        unfolding ch using a Inr t b by simp
      then show ?thesis using p2 by simp
    next
      case arc: (Inr arc)
      obtain r3 s3 where c: "detrend regression ?xr arc s2 = (r3, s3)" by force
      have p3: "prefix (heap s) (heap s3)"
        using p2 detrend_heap [OF c] by (rule prefix_order.trans)
      show ?thesis
      proof (cases r3)
        case (Inl e)
        then have "dfgls g x regression maxlag autolag s = (Inl e, s3)"
          unfolding ch using a Inr t b arc c by simp
        then show ?thesis using p3 by simp
      next
        case dtx: (Inr dtx)
        obtain r4 s4 where d: "call_adfuller g dtx ''nc'' maxlag autolag s3 = (r4, s4)" by force
        have p4: "prefix (heap s) (heap s4)" using p3 call_adfuller_heap [OF d] by simp
        show ?thesis
        proof (cases r4)
          case (Inl e)
          then have "dfgls g x regression maxlag autolag s = (Inl e, s4)"
            unfolding ch using a Inr t b arc c dtx d by simp
          then show ?thesis using p4 by simp
        next
          case res: (Inr res)
          show ?thesis
          proof (cases "regression = ''ct''")
            case True
            obtain r5 s5 where e: "correct_ct g res dtx s4 = (r5, s5)" by force
            have "dfgls g x regression maxlag autolag s = (r5, s5)"
              unfolding ch using a Inr t b arc c dtx d res True e by simp
            then show ?thesis using p4 correct_ct_heap [OF e] by simp
          next
            case nct: False
            have "dfgls g x regression maxlag autolag s = (Inr res, s4)"
              unfolding ch using a Inr t b arc c dtx d res nct by simp
            then show ?thesis using p4 by simp
          qed
        qed
      qed
    qed
  qed
qed

lemma prefix_nth: "prefix xs ys \<Longrightarrow> a < length xs \<Longrightarrow> ys ! a = xs ! a"
  by (auto simp add: prefix_def nth_append)

lemma after_ADF_calls:
  "calls (after_ADF x regression arc maxlag autolag s) =
     calls s @ [OLS_call (ols_endog regression (buffer s x)) (ols_exog regression (buffer s x)),
                ADF_call (adf_arg regression arc (buffer s x)) ''nc'' maxlag autolag]"
  by (simp add: after_ADF_def)

lemma correct_ct_calls:
  "\<exists>extra. calls (snd (correct_ct g res dtx s)) = calls s @ extra \<and> filter is_ADF_call extra = []"
  by (cases "mackinnoncrit g"; cases "mackinnonp g") (simp_all add: correct_ct_def Let_def)

lemma dfgls_calls_ADF:
  assumes "valid_input x regression s"
    and "OLS_fit g (ols_endog regression (buffer s x)) (ols_exog regression (buffer s x)) = Inr arc"
    and "ncols regression \<le> length arc"
  shows "\<exists>extra. calls (snd (dfgls g x regression maxlag autolag s)) =
           calls s @ OLS_call (ols_endog regression (buffer s x)) (ols_exog regression (buffer s x))
                   # ADF_call (adf_arg regression arc (buffer s x)) ''nc'' maxlag autolag # extra
           \<and> filter is_ADF_call extra = []"
proof (cases "adfuller g (adf_arg regression arc (buffer s x)) ''nc'' maxlag autolag")
  case (Inl err)
  show ?thesis
    unfolding dfgls_to_ADF [OF assms] Inl by (simp add: after_ADF_calls)
next
  case (Inr res)
  show ?thesis
  proof (cases "regression = ''ct''")
    case True
    obtain extra where
      "calls (snd (correct_ct g res \<lparr>base = length (heap s) + 3, shape = [length (buffer s x)]\<rparr>
                     (after_ADF x regression arc maxlag autolag s)))
         = calls (after_ADF x regression arc maxlag autolag s) @ extra"
      "filter is_ADF_call extra = []"
      using correct_ct_calls by blast
    then show ?thesis
      unfolding dfgls_to_ADF [OF assms] Inr using True by (simp add: after_ADF_calls)
  next
    case False
    show ?thesis
      unfolding dfgls_to_ADF [OF assms] Inr using False by (simp add: after_ADF_calls)
  qed
qed

lemma dfgls_calls_OLS:
  assumes "valid_input x regression s"
  shows "\<exists>rest. calls (snd (dfgls g x regression maxlag autolag s)) =
           calls s @ OLS_call (ols_endog regression (buffer s x)) (ols_exog regression (buffer s x)) # rest"
proof (cases "OLS_fit g (ols_endog regression (buffer s x)) (ols_exog regression (buffer s x))")
  case (Inl err)
  show ?thesis unfolding dfgls_to_OLS [OF assms] Inl by (simp add: after_OLS_simps)
next
  case (Inr arc)
  show ?thesis
  proof (cases "ncols regression \<le> length arc")
    case True
    from dfgls_calls_ADF [OF assms Inr True] show ?thesis by blast
  next
    case False
    then have "length arc < ncols regression" by simp
    from dfgls_arc_short(2) [OF assms Inr this] show ?thesis by simp
  qed
qed

lemma calls_during_append: "calls s' = calls s @ l \<Longrightarrow> calls_during s s' = l"
  by (simp add: calls_during_def)



lemma dfgls_OLS_logged:
  assumes "valid_input x regression s"
    and "calls_during s (snd (dfgls g x regression maxlag autolag s)) = OLS_call e ex # rest"
  shows "e = ols_endog regression (buffer s x)" and "ex = ols_exog regression (buffer s x)"
proof -
  obtain rest' where
    "calls (snd (dfgls g x regression maxlag autolag s)) =
       calls s @ OLS_call (ols_endog regression (buffer s x)) (ols_exog regression (buffer s x)) # rest'"
    using dfgls_calls_OLS [OF assms(1)] by blast
  then have "calls_during s (snd (dfgls g x regression maxlag autolag s)) =
       OLS_call (ols_endog regression (buffer s x)) (ols_exog regression (buffer s x)) # rest'"
    by (rule calls_during_append)
  with assms(2) show "e = ols_endog regression (buffer s x)" "ex = ols_exog regression (buffer s x)"
    by simp_all
qed

subsection \<open>The small run, evaluated\<close>

lemmas model_defs = dfgls_def ndim_def np_reshape_column_def
   aux_regression_def alpha_of_def np_ones_def alloc_def np_copy_def buffer_def write_array_def
   qd_endog_def qd_ones_def set_trend_def qd_trend_def
   put_col_tail_def col_tail_def col_init_def at2_def sub_elems_def np_arange_def call_OLS_def
   read_array_def detrend_def reshape_flat_def call_adfuller_def correct_ct_def Let_def

lemmas example_defs = example_globals_def example_x_def example_state_def example_ols_def
   example_adf_def example_crit_def example_pval_def module_globals_def

lemma example_valid: "valid_input example_x ''c'' example_state" "valid_input example_x ''ct'' example_state"
  by (simp_all add: valid_input_def wf_array_def example_x_def example_state_def ndim_def buffer_def)

lemma example_run_c:
  "dfgls example_globals example_x ''c'' None (Some ''AIC'') example_state =
     (Inr \<lparr>stat = 1 / 2, pvalue = 1 / 10, usedlag = 1, nobs = 2,
           critvalues = [(''1%'', - 3), (''5%'', - 2), (''10%'', - 1)], icbest = Some 7\<rparr>,
      \<lparr>heap = [[1, 2, 4, 8], [1, 7 / 4, 7 / 4, 7 / 4], [1, 11 / 4, 11 / 2, 11],
               [1, 2, 4, 8], [1 / 2, 3 / 2, 7 / 2, 15 / 2]],
       calls = [OLS_call ([4, 1], [1, 11 / 4, 11 / 2, 11]) ([4, 1], [1, 7 / 4, 7 / 4, 7 / 4]),
                ADF_call ([4], [1 / 2, 3 / 2, 7 / 2, 15 / 2]) ''nc'' None (Some ''AIC'')]\<rparr>)"
  by (simp add: model_defs example_defs upt_conv_Cons)

lemma example_run_ct:
  "dfgls example_globals example_x ''ct'' None (Some ''AIC'') example_state =
     (Inr \<lparr>stat = 1 / 4, pvalue = 1 / 8, usedlag = 1, nobs = 2,
           critvalues = [(''1%'', - 4), (''5%'', - 2), (''10%'', - 1)], icbest = None\<rparr>,
      \<lparr>heap = [[1, 2, 4, 8], [1, 1, 27 / 8, 35 / 8, 27 / 8, 31 / 4, 27 / 8, 89 / 8],
               [1, 35 / 8, 35 / 4, 35 / 2], [1, 2, 4, 8], [1 / 4, 1, 11 / 4, 13 / 2]],
       calls = [OLS_call ([4, 1], [1, 35 / 8, 35 / 4, 35 / 2])
                  ([4, 2], [1, 1, 27 / 8, 35 / 8, 27 / 8, 31 / 4, 27 / 8, 89 / 8]),
                ADF_call ([4], [1 / 4, 1, 11 / 4, 13 / 2]) ''nc'' None (Some ''AIC''),
                CRIT_call 1 ''c'' 4, PVAL_call (1 / 4) ''c'' 1]\<rparr>)"
  by (simp add: model_defs example_defs upt_conv_Cons)

lemma example_run_module:
  "dfgls (module_globals example_ols example_adf) example_x ''ct'' None (Some ''AIC'') example_state =
     (Inl (NameError ''mackinnoncrit''),
      \<lparr>heap = [[1, 2, 4, 8], [1, 1, 27 / 8, 35 / 8, 27 / 8, 31 / 4, 27 / 8, 89 / 8],
               [1, 35 / 8, 35 / 4, 35 / 2], [1, 2, 4, 8], [1 / 4, 1, 11 / 4, 13 / 2]],
       calls = [OLS_call ([4, 1], [1, 35 / 8, 35 / 4, 35 / 2])
                  ([4, 2], [1, 1, 27 / 8, 35 / 8, 27 / 8, 31 / 4, 27 / 8, 89 / 8]),
                ADF_call ([4], [1 / 4, 1, 11 / 4, 13 / 2]) ''nc'' None (Some ''AIC'')]\<rparr>)"
  by (simp add: model_defs example_defs upt_conv_Cons)

lemma example_buffer: "buffer example_state example_x = [1, 2, 4, 8]"
  by (simp add: buffer_def example_state_def example_x_def)

lemma example_calls_c:
  "calls_during example_state
     (snd (dfgls example_globals example_x ''c'' None (Some ''AIC'') example_state)) =
   [OLS_call ([4, 1], [1, 11 / 4, 11 / 2, 11]) ([4, 1], [1, 7 / 4, 7 / 4, 7 / 4]),
    ADF_call ([4], [1 / 2, 3 / 2, 7 / 2, 15 / 2]) ''nc'' None (Some ''AIC'')]"
  unfolding example_run_c by (simp add: calls_during_def example_state_def)


lemma ct_result:
  assumes "valid_input x ''ct'' s"
    and "mackinnoncrit g = Some crit" and "mackinnonp g = Some pval"
    and "fst (dfgls g x ''ct'' maxlag autolag s) = Inr r"
    and "n = length (buffer s x)"
  shows "\<exists>arc a. adfuller g (adf_arg ''ct'' arc (buffer s x)) ''nc'' maxlag autolag = Inr a
           \<and> r = \<lparr>stat = stat a, pvalue = pval (stat a) ''c'' 1,
                   usedlag = usedlag a, nobs = nobs a,
                   critvalues = [(''1%'', fst (crit 1 ''c'' n)),
                                 (''5%'', fst (snd (crit 1 ''c'' n))),
                                 (''10%'', snd (snd (crit 1 ''c'' n)))],
                   icbest = None\<rparr>"
proof (cases "OLS_fit g (ols_endog ''ct'' (buffer s x)) (ols_exog ''ct'' (buffer s x))")
  case (Inl err)
  then show ?thesis
    using assms(4) unfolding dfgls_to_OLS [OF assms(1)] by simp
next
  case (Inr arc)
  show ?thesis
  proof (cases "ncols ''ct'' \<le> length arc")
    case False
    then have "length arc < ncols ''ct''" by simp
    from dfgls_arc_short(1) [OF assms(1) Inr this] assms(4) show ?thesis by simp
  next
    case True
    note run = dfgls_to_ADF [OF assms(1) Inr True, of maxlag autolag]
    show ?thesis
    proof (cases "adfuller g (adf_arg ''ct'' arc (buffer s x)) ''nc'' maxlag autolag")
      case (Inl err)
      then show ?thesis using assms(4) unfolding run by simp
    next
      case a: (Inr a)
      have "fst (correct_ct g a \<lparr>base = length (heap s) + 3, shape = [length (buffer s x)]\<rparr>
                   (after_ADF x ''ct'' arc maxlag autolag s)) = Inr r"
        using assms(4) unfolding run a by simp
      then have "r = \<lparr>stat = stat a, pvalue = pval (stat a) ''c'' 1,
                          usedlag = usedlag a, nobs = nobs a,
                          critvalues = [(''1%'', fst (crit 1 ''c'' n)),
                                        (''5%'', fst (snd (crit 1 ''c'' n))),
                                        (''10%'', snd (snd (crit 1 ''c'' n)))],
                          icbest = None\<rparr>"
        using assms(2,3,5) by (simp add: correct_ct_def Let_def)
      then show ?thesis using a by blast
    qed
  qed
qed

section \<open>The claims\<close>

text \<open>
  Claim C1: for \<open>'ct'\<close> the p-value and the critical values of the result are those of
  the MacKinnon functions, not those of \<open>adfuller\<close>.  The code does not get that far.
  Under the namespace that the file's own imports build, every call with \<open>'ct'\<close> on a
  valid input ends in an exception and returns no result; when the auxiliary regression
  and \<open>adfuller\<close> have both returned, the exception is the \<open>NameError\<close> of line 135,
  where \<open>mackinnoncrit\<close> is looked up.
\<close>

theorem ct_raises_NameError:
  assumes "valid_input x ''ct'' s"
  shows "\<exists>e. fst (dfgls (module_globals ols adf) x ''ct'' maxlag autolag s) = Inl e
       \<and> ((\<exists>arc a. ols (ols_endog ''ct'' (buffer s x)) (ols_exog ''ct'' (buffer s x)) = Inr arc
                 \<and> ncols ''ct'' \<le> length arc
                 \<and> adf (adf_arg ''ct'' arc (buffer s x)) ''nc'' maxlag autolag = Inr a)
            \<longrightarrow> e = NameError ''mackinnoncrit'')"
proof -
  let ?g = "module_globals ols adf"
  have g: "OLS_fit ?g = ols" "adfuller ?g = adf" "mackinnoncrit ?g = None"
    by (simp_all add: module_globals_def)
  show ?thesis
  proof (cases "ols (ols_endog ''ct'' (buffer s x)) (ols_exog ''ct'' (buffer s x))")
    case (Inl err)
    then have o: "OLS_fit ?g (ols_endog ''ct'' (buffer s x)) (ols_exog ''ct'' (buffer s x)) = Inl err"
      unfolding g .
    have "fst (dfgls ?g x ''ct'' maxlag autolag s) = Inl err"
      unfolding dfgls_to_OLS [OF assms] o by simp
    then show ?thesis using Inl by simp
  next
    case (Inr arc)
    then have o: "OLS_fit ?g (ols_endog ''ct'' (buffer s x)) (ols_exog ''ct'' (buffer s x)) = Inr arc"
      unfolding g .
    show ?thesis
    proof (cases "ncols ''ct'' \<le> length arc")
      case False
      then have "length arc < ncols ''ct''" by simp
      from dfgls_arc_short(1) [OF assms o this] Inr False show ?thesis by simp
    next
      case True
      note run = dfgls_to_ADF [OF assms o True, of maxlag autolag]
      show ?thesis
      proof (cases "adf (adf_arg ''ct'' arc (buffer s x)) ''nc'' maxlag autolag")
        case (Inl err)
        have "fst (dfgls ?g x ''ct'' maxlag autolag s) = Inl err"
          unfolding run g Inl by simp
        then show ?thesis using Inr Inl by simp
      next
        case a: (Inr a)
        have "fst (dfgls ?g x ''ct'' maxlag autolag s) = Inl (NameError ''mackinnoncrit'')"
          unfolding run g a by (simp add: correct_ct_def g)
        then show ?thesis by simp
      qed
    qed
  qed
qed

text \<open>
  The theorem at the small run, with \<open>maxlag=1\<close> and \<open>autolag=None\<close>.
\<close>

theorem ct_raises_NameError_witness:
  "valid_input example_x ''ct'' example_state
   \<and> example_ols (ols_endog ''ct'' (buffer example_state example_x))
        (ols_exog ''ct'' (buffer example_state example_x)) = Inr [1 / 2, 1 / 4]
   \<and> example_adf (adf_arg ''ct'' [1 / 2, 1 / 4] (buffer example_state example_x)) ''nc''
        (Some 1) None =
       Inr \<lparr>stat = 1 / 4, pvalue = 1 / 10, usedlag = 1, nobs = 2,
            critvalues = [(''1%'', - 3), (''5%'', - 2), (''10%'', - 1)], icbest = None\<rparr>
   \<and> fst (dfgls (module_globals example_ols example_adf) example_x ''ct'' (Some 1) None
          example_state) = Inl (NameError ''mackinnoncrit'')"
proof -
  have o: "example_ols (ols_endog ''ct'' (buffer example_state example_x))
        (ols_exog ''ct'' (buffer example_state example_x)) = Inr [1 / 2, 1 / 4]"
    by (simp add: example_ols_def ols_exog_def ncols_def)
  have l: "ncols ''ct'' \<le> length [1 / 2, 1 / 4 :: real]" by (simp add: ncols_def)
  have d: "adf_arg ''ct'' [1 / 2, 1 / 4] (buffer example_state example_x) =
             ([4], [1 / 4, 1, 11 / 4, 13 / 2])"
    by (simp add: adf_arg_def dtx_buf_def example_buffer sub_elems_def np_arange_def
          upt_conv_Cons)
  have a: "example_adf (adf_arg ''ct'' [1 / 2, 1 / 4] (buffer example_state example_x)) ''nc''
        (Some 1) None =
       Inr \<lparr>stat = 1 / 4, pvalue = 1 / 10, usedlag = 1, nobs = 2,
            critvalues = [(''1%'', - 3), (''5%'', - 2), (''10%'', - 1)], icbest = None\<rparr>"
    unfolding d by (simp add: example_adf_def)
  from ct_raises_NameError [OF example_valid(2), of example_ols example_adf "Some 1" None]
  obtain e where
    e: "fst (dfgls (module_globals example_ols example_adf) example_x ''ct'' (Some 1) None
              example_state) = Inl e"
    and n: "(\<exists>arc a. example_ols (ols_endog ''ct'' (buffer example_state example_x))
                      (ols_exog ''ct'' (buffer example_state example_x)) = Inr arc
                 \<and> ncols ''ct'' \<le> length arc
                 \<and> example_adf (adf_arg ''ct'' arc (buffer example_state example_x)) ''nc''
                      (Some 1) None = Inr a)
            \<longrightarrow> e = NameError ''mackinnoncrit''"
    by blast
  have "e = NameError ''mackinnoncrit''" using n o l a by blast
  then show ?thesis using e o a example_valid(2) by simp
qed

text \<open>
  Claim C2: for \<open>'ct'\<close> the result keeps the statistic, the lags used, the observations
  used and, when \<open>adfuller\<close> produced one, \<open>icbest\<close>.  The code does not.  Under the
  namespace that the file's own imports build, line 135 raises \<open>NameError\<close> after
  \<open>adfuller\<close> has run.  With the two names bound, lines 136 and 137 build a list of
  five items, so that the \<open>icbest\<close> that \<open>adfuller\<close> returned is lost (\<open>ct_result\<close>
  above shows this for every run; statistic, lags and observations do pass through).
  The run below has \<open>autolag='AIC'\<close>.
\<close>

theorem ct_result_without_icbest:
  "fst (dfgls (module_globals example_ols example_adf) example_x ''ct'' None (Some ''AIC'')
          example_state) = Inl (NameError ''mackinnoncrit'')
   \<and> example_adf ([4], [1 / 4, 1, 11 / 4, 13 / 2]) ''nc'' None (Some ''AIC'') =
       Inr \<lparr>stat = 1 / 4, pvalue = 1 / 10, usedlag = 1, nobs = 2,
            critvalues = [(''1%'', - 3), (''5%'', - 2), (''10%'', - 1)], icbest = Some 7\<rparr>
   \<and> fst (dfgls example_globals example_x ''ct'' None (Some ''AIC'') example_state) =
       Inr \<lparr>stat = 1 / 4, pvalue = 1 / 8, usedlag = 1, nobs = 2,
            critvalues = [(''1%'', - 4), (''5%'', - 2), (''10%'', - 1)], icbest = None\<rparr>"
  unfolding example_run_ct example_run_module by (simp add: example_adf_def)

text \<open>
  Claim C3: on a valid input of \<open>n\<close> observations, the \<open>alpha\<close> that the
  quasi-differencing uses is \<open>1 - 7/n\<close> for \<open>'c'\<close> and \<open>1 - 13.5/n\<close> for
  \<open>'ct'\<close>, where \<open>n\<close> is the length of the whole flattened series.  The value is read
  off the arguments of the call of \<open>OLS\<close> that \<open>dfgls\<close> logs: it is the factor of the
  previous observation in \<open>endog\<close>, it is \<open>1 - exog[i,0]\<close>, and for \<open>'ct'\<close> it is
  the factor of the previous index in \<open>exog[i,1]\<close>, in every row \<open>i \<ge> 1\<close>.
\<close>

theorem quasi_differencing_alpha:
  assumes "valid_input x regression s"
    and "series = buffer s x" and "n = length series" and "k = ncols regression"
    and "alpha = (if regression = ''c'' then 1 - 7 / real n else 1 - 13.5 / real n)"
  shows "n = prod_list (shape x)
    \<and> (\<exists>e ex rest.
        calls_during s (snd (dfgls g x regression maxlag autolag s)) =
          OLS_call ([n, 1], e) ([n, k], ex) # rest
      \<and> (\<forall>i. 1 \<le> i \<and> i < n \<longrightarrow> e ! i = series ! i - alpha * series ! (i - 1))
      \<and> (\<forall>i. 1 \<le> i \<and> i < n \<longrightarrow> 1 - at2 k ex i 0 = alpha)
      \<and> (regression = ''ct'' \<longrightarrow>
           (\<forall>i. 1 \<le> i \<and> i < n \<longrightarrow> at2 k ex i 1 = real (i + 1) - alpha * real i)))"
proof -
  have r: "regression = ''c'' \<or> regression = ''ct''"
    using assms(1) by (simp add: valid_input_def)
  have a: "alpha = alpha_of regression n"
    using assms(5) by (simp add: alpha_of_def)
  have p: "n = prod_list (shape x)"
    using assms(1-3) by (simp add: valid_input_def wf_array_def)
  obtain rest where
    "calls (snd (dfgls g x regression maxlag autolag s)) =
       calls s @ OLS_call (ols_endog regression series) (ols_exog regression series) # rest"
    using dfgls_calls_OLS [OF assms(1)] assms(2) by blast
  then have c: "calls_during s (snd (dfgls g x regression maxlag autolag s)) =
       OLS_call ([n, 1], qd_endog alpha series) ([n, k], exog_buf regression alpha n) # rest"
    using assms(3,4) a calls_during_append by (simp add: ols_endog_def ols_exog_def)
  have ei: "\<forall>i. 1 \<le> i \<and> i < n \<longrightarrow> qd_endog alpha series ! i = series ! i - alpha * series ! (i - 1)"
    using assms(3) by (simp add: qd_endog_nth)
  have k: "k = (if regression = ''c'' then 1 else 2)" using assms(4) by (simp add: ncols_def)
  have x0: "\<forall>i. 1 \<le> i \<and> i < n \<longrightarrow> 1 - at2 k (exog_buf regression alpha n) i 0 = alpha"
    unfolding k by (simp add: exog_buf_col0)
  have x1: "regression = ''ct'' \<longrightarrow>
     (\<forall>i. 1 \<le> i \<and> i < n \<longrightarrow> at2 k (exog_buf regression alpha n) i 1 =
        real (i + 1) - alpha * real i)"
  proof (intro impI allI)
    fix i
    assume ct: "regression = ''ct''" and i: "1 \<le> i \<and> i < n"
    then have "i < n" by simp
    from exog_buf_col1 [OF this, of alpha] show
      "at2 k (exog_buf regression alpha n) i 1 = real (i + 1) - alpha * real i"
      using ct i k by simp
  qed
  show ?thesis
    using p c ei x0 x1 by blast
qed

text \<open>
  The theorem at the small run, for both regression options.
\<close>

theorem quasi_differencing_alpha_witness:
  "valid_input example_x ''c'' example_state
   \<and> (4::nat) = prod_list (shape example_x)
   \<and> (\<exists>e ex rest.
        calls_during example_state
          (snd (dfgls example_globals example_x ''c'' None (Some ''AIC'') example_state)) =
          OLS_call ([4, 1], e) ([4, 1], ex) # rest
      \<and> (\<forall>i. 1 \<le> i \<and> i < 4 \<longrightarrow> e ! i = [1, 2, 4, 8] ! i - (- 3 / 4) * [1, 2, 4, 8] ! (i - 1))
      \<and> (\<forall>i. 1 \<le> i \<and> i < 4 \<longrightarrow> 1 - at2 1 ex i 0 = - 3 / 4))
   \<and> valid_input example_x ''ct'' example_state
   \<and> (\<exists>e ex rest.
        calls_during example_state
          (snd (dfgls example_globals example_x ''ct'' None (Some ''AIC'') example_state)) =
          OLS_call ([4, 1], e) ([4, 2], ex) # rest
      \<and> (\<forall>i. 1 \<le> i \<and> i < 4 \<longrightarrow> e ! i = [1, 2, 4, 8] ! i - (- 19 / 8) * [1, 2, 4, 8] ! (i - 1))
      \<and> (\<forall>i. 1 \<le> i \<and> i < 4 \<longrightarrow> 1 - at2 2 ex i 0 = - 19 / 8)
      \<and> (\<forall>i. 1 \<le> i \<and> i < 4 \<longrightarrow> at2 2 ex i 1 = real (i + 1) - (- 19 / 8) * real i))"
proof -
  have s: "[1, 2, 4, 8] = buffer example_state example_x" by (simp add: example_buffer)
  have n: "4 = length [1, 2, 4, 8 :: real]" by simp
  have k1: "1 = ncols ''c''" and k2: "2 = ncols ''ct''" by (simp_all add: ncols_def)
  have a1: "- 3 / 4 = (if ''c'' = ''c'' then 1 - 7 / real (4::nat) else 1 - 13.5 / real (4::nat))"
    by simp
  have a2: "- 19 / 8 = (if ''ct'' = ''c'' then 1 - 7 / real (4::nat) else 1 - 13.5 / real (4::nat))"
    by simp
  from quasi_differencing_alpha [OF example_valid(1) s n k1 a1, of example_globals None "Some ''AIC''"]
    quasi_differencing_alpha [OF example_valid(2) s n k2 a2, of example_globals None "Some ''AIC''"]
    example_valid
  show ?thesis by simp
qed

text \<open>
  Claim C4: on a valid input the auxiliary regression is called with
  \<open>endog[0] = series[0]\<close> and \<open>endog[i] = series[i] - alpha * series[i-1]\<close> for
  \<open>i \<ge> 1\<close>, with \<open>exog[0,0] = 1\<close> and \<open>exog[i,0] = 1 - alpha\<close> for \<open>i \<ge> 1\<close>, and,
  for \<open>'ct'\<close>, with \<open>exog[0,1] = 1\<close> and \<open>exog[i,1] = t[i] - alpha * t[i-1]\<close> for
  \<open>i \<ge> 1\<close>, where \<open>t[i] = i + 1\<close>.  The arguments are read off the first call the run
  logs.
\<close>

theorem auxiliary_regression_inputs:
  assumes "valid_input x regression s"
    and "series = buffer s x" and "n = length series"
    and "alpha = alpha_of regression n" and "k = ncols regression"
  shows "\<exists>e ex rest.
      calls_during s (snd (dfgls g x regression maxlag autolag s)) =
        OLS_call ([n, 1], e) ([n, k], ex) # rest
    \<and> length e = n \<and> length ex = n * k
    \<and> e ! 0 = series ! 0
    \<and> (\<forall>i. 1 \<le> i \<and> i < n \<longrightarrow> e ! i = series ! i - alpha * series ! (i - 1))
    \<and> at2 k ex 0 0 = 1
    \<and> (\<forall>i. 1 \<le> i \<and> i < n \<longrightarrow> at2 k ex i 0 = 1 - alpha)
    \<and> (regression = ''ct'' \<longrightarrow>
         at2 k ex 0 1 = 1
       \<and> (\<forall>i. 1 \<le> i \<and> i < n \<longrightarrow> at2 k ex i 1 = real (i + 1) - alpha * real i))"
proof -
  have n: "0 < n" using assms(1-3) unfolding valid_input_def by blast
  obtain rest where
    "calls (snd (dfgls g x regression maxlag autolag s)) =
       calls s @ OLS_call (ols_endog regression series) (ols_exog regression series) # rest"
    using dfgls_calls_OLS [OF assms(1)] assms(2) by blast
  then have c: "calls_during s (snd (dfgls g x regression maxlag autolag s)) =
       OLS_call ([n, 1], qd_endog alpha series) ([n, k], exog_buf regression alpha n) # rest"
    using assms(3-5) calls_during_append by (simp add: ols_endog_def ols_exog_def)
  have e0: "qd_endog alpha series ! 0 = series ! 0"
    using n assms(3) by (simp add: qd_endog_0)
  have ei: "\<forall>i. 1 \<le> i \<and> i < n \<longrightarrow> qd_endog alpha series ! i = series ! i - alpha * series ! (i - 1)"
    using assms(3) by (simp add: qd_endog_nth)
  have k: "k = (if regression = ''c'' then 1 else 2)" using assms(5) by (simp add: ncols_def)
  have x0: "\<forall>i. i < n \<longrightarrow> at2 k (exog_buf regression alpha n) i 0 = (if i = 0 then 1 else 1 - alpha)"
    unfolding k using exog_buf_col0 by blast
  have x1: "regression = ''ct'' \<longrightarrow>
     (\<forall>i. i < n \<longrightarrow> at2 k (exog_buf regression alpha n) i 1 =
        (if i = 0 then 1 else real (i + 1) - alpha * real i))"
    unfolding k using exog_buf_col1 by simp
  have l: "length (qd_endog alpha series) = n" "length (exog_buf regression alpha n) = n * k"
    unfolding k using assms(3) by (simp_all add: qd_endog_length exog_buf_length)
  show ?thesis
    using c l e0 ei x0 x1 n by (intro exI [of _ "qd_endog alpha series"]
        exI [of _ "exog_buf regression alpha n"] exI [of _ rest]) auto
qed

text \<open>
  The theorem at the small run.
\<close>

theorem auxiliary_regression_inputs_witness:
  "valid_input example_x ''ct'' example_state
   \<and> (\<exists>e ex rest.
        calls_during example_state
          (snd (dfgls example_globals example_x ''ct'' None (Some ''AIC'') example_state)) =
          OLS_call ([4, 1], e) ([4, 2], ex) # rest
      \<and> length e = 4 \<and> length ex = 8
      \<and> e ! 0 = 1
      \<and> (\<forall>i. 1 \<le> i \<and> i < 4 \<longrightarrow> e ! i = [1, 2, 4, 8] ! i - (- 19 / 8) * [1, 2, 4, 8] ! (i - 1))
      \<and> at2 2 ex 0 0 = 1
      \<and> (\<forall>i. 1 \<le> i \<and> i < 4 \<longrightarrow> at2 2 ex i 0 = 1 - (- 19 / 8))
      \<and> at2 2 ex 0 1 = 1
      \<and> (\<forall>i. 1 \<le> i \<and> i < 4 \<longrightarrow> at2 2 ex i 1 = real (i + 1) - (- 19 / 8) * real i))"
proof -
  have a: "- 19 / 8 = alpha_of ''ct'' 4" by (simp add: alpha_of_def)
  have k: "2 = ncols ''ct''" by (simp add: ncols_def)
  have s: "[1, 2, 4, 8] = buffer example_state example_x" by (simp add: example_buffer)
  have n: "4 = length [1, 2, 4, 8 :: real]" by simp
  from auxiliary_regression_inputs [OF example_valid(2) s n a k, of example_globals None "Some ''AIC''"]
    example_valid(2)
  show ?thesis by simp
qed



text \<open>
  Claim C6: on a valid input on which the auxiliary regression returns its coefficients,
  \<open>adfuller\<close> is called exactly once, on the adjusted series, with \<open>regression='nc'\<close>
  and the caller's \<open>maxlag\<close> and \<open>autolag\<close>; for \<open>'c'\<close> what \<open>adfuller\<close> returns
  or raises is what \<open>dfgls\<close> returns or raises.
\<close>

theorem adfuller_called_once:
  assumes "valid_input x regression s"
    and "calls_during s (snd (dfgls g x regression maxlag autolag s)) = OLS_call e ex # rest"
    and "OLS_fit g e ex = Inr arc"
    and "length arc = fst ex ! 1"
  shows "filter is_ADF_call (calls_during s (snd (dfgls g x regression maxlag autolag s))) =
           [ADF_call (adf_arg regression arc (buffer s x)) ''nc'' maxlag autolag]
       \<and> (regression = ''c'' \<longrightarrow>
            fst (dfgls g x regression maxlag autolag s) =
              adfuller g (adf_arg regression arc (buffer s x)) ''nc'' maxlag autolag)"
proof -
  note eq = dfgls_OLS_logged [OF assms(1,2)]
  have o: "OLS_fit g (ols_endog regression (buffer s x)) (ols_exog regression (buffer s x)) = Inr arc"
    using assms(3) eq by simp
  have a: "ncols regression \<le> length arc"
    using assms(4) eq by (simp add: ols_exog_def)
  obtain extra where
    "calls (snd (dfgls g x regression maxlag autolag s)) =
       calls s @ OLS_call (ols_endog regression (buffer s x)) (ols_exog regression (buffer s x))
               # ADF_call (adf_arg regression arc (buffer s x)) ''nc'' maxlag autolag # extra"
    and f: "filter is_ADF_call extra = []"
    using dfgls_calls_ADF [OF assms(1) o a] by blast
  then have "calls_during s (snd (dfgls g x regression maxlag autolag s)) =
       OLS_call (ols_endog regression (buffer s x)) (ols_exog regression (buffer s x))
         # ADF_call (adf_arg regression arc (buffer s x)) ''nc'' maxlag autolag # extra"
    using calls_during_append by blast
  then have once: "filter is_ADF_call (calls_during s (snd (dfgls g x regression maxlag autolag s))) =
           [ADF_call (adf_arg regression arc (buffer s x)) ''nc'' maxlag autolag]"
    using f by simp
  have "fst (dfgls g x regression maxlag autolag s) =
          adfuller g (adf_arg regression arc (buffer s x)) ''nc'' maxlag autolag"
    if "regression = ''c''"
  proof -
    have nct: "regression \<noteq> ''ct''" using that by simp
    show ?thesis
      unfolding dfgls_to_ADF [OF assms(1) o a] using nct by (simp split: sum.split)
  qed
  with once show ?thesis by blast
qed

text \<open>
  The theorem at the small run.
\<close>

theorem adfuller_called_once_witness:
  "valid_input example_x ''c'' example_state
   \<and> filter is_ADF_call (calls_during example_state
        (snd (dfgls example_globals example_x ''c'' None (Some ''AIC'') example_state))) =
       [ADF_call ([4], [1 / 2, 3 / 2, 7 / 2, 15 / 2]) ''nc'' None (Some ''AIC'')]
   \<and> fst (dfgls example_globals example_x ''c'' None (Some ''AIC'') example_state) =
       example_adf ([4], [1 / 2, 3 / 2, 7 / 2, 15 / 2]) ''nc'' None (Some ''AIC'')"
proof -
  have o: "OLS_fit example_globals ([4, 1], [1, 11 / 4, 11 / 2, 11])
        ([4, 1], [1, 7 / 4, 7 / 4, 7 / 4]) = Inr [1 / 2]"
    by (simp add: example_globals_def example_ols_def)
  have l: "length [1 / 2 :: real] = fst ([4, 1 :: nat], [1, 7 / 4, 7 / 4, 7 / 4 :: real]) ! 1"
    by simp
  have d: "adf_arg ''c'' [1 / 2] (buffer example_state example_x) = ([4], [1 / 2, 3 / 2, 7 / 2, 15 / 2])"
    by (simp add: adf_arg_def dtx_buf_def example_buffer)
  from adfuller_called_once [OF example_valid(1) example_calls_c o l] example_valid(1)
  show ?thesis unfolding d by (simp add: example_globals_def)
qed

text \<open>
  Claim C7: \<open>dfgls\<close> raises \<open>ValueError\<close> when the regression option is neither
  \<open>'c'\<close> nor \<open>'ct'\<close>, when the series has more than two dimensions, and when it has
  two dimensions and more than one column.  The state comes back as it was: nothing has
  been allocated, written or called.
\<close>

theorem dfgls_invalid_argument:
  assumes "regression \<notin> set [''c'', ''ct''] \<or> 2 < ndim x \<or> (ndim x = 2 \<and> 1 < shape x ! 1)"
  shows "dfgls g x regression maxlag autolag s = (Inl ValueError, s)"
  using assms by (auto simp add: dfgls_def)

text \<open>
  The theorem at one input for each of the three causes.
\<close>

theorem dfgls_invalid_argument_witness:
  "dfgls example_globals example_x ''n'' None (Some ''AIC'') example_state = (Inl ValueError, example_state)
   \<and> dfgls example_globals \<lparr>base = 0, shape = [1, 2, 2]\<rparr> ''c'' None (Some ''AIC'') example_state
       = (Inl ValueError, example_state)
   \<and> dfgls example_globals \<lparr>base = 0, shape = [2, 2]\<rparr> ''ct'' None (Some ''AIC'') example_state
       = (Inl ValueError, example_state)"
  using dfgls_invalid_argument [of "''n''" example_x example_globals None "Some ''AIC''" example_state]
    dfgls_invalid_argument [of "''c''" "\<lparr>base = 0, shape = [1, 2, 2]\<rparr>" example_globals None "Some ''AIC''" example_state]
    dfgls_invalid_argument [of "''ct''" "\<lparr>base = 0, shape = [2, 2]\<rparr>" example_globals None "Some ''AIC''" example_state]
  by (simp add: ndim_def)

text \<open>
  Claim C8: the buffer of the caller's series holds after the call what it held before,
  whatever the call returns or raises.  (\<open>dfgls_heap\<close> above says the same of every buffer
  that was in the store before the call.)
\<close>

theorem series_buffer_unchanged:
  assumes "base x < length (heap s)"
  shows "buffer (snd (dfgls g x regression maxlag autolag s)) x = buffer s x"
  unfolding buffer_def using dfgls_heap assms by (rule prefix_nth)

text \<open>
  The theorem at the small run.
\<close>

theorem series_buffer_unchanged_witness:
  "base example_x < length (heap example_state)
   \<and> buffer (snd (dfgls example_globals example_x ''ct'' None (Some ''AIC'') example_state)) example_x
       = [1, 2, 4, 8]"
proof -
  have b: "base example_x < length (heap example_state)"
    by (simp add: example_x_def example_state_def)
  from series_buffer_unchanged [OF b, of example_globals "''ct''" None "Some ''AIC''"] b
  show ?thesis by (simp add: example_buffer)
qed

text \<open>
  Claim C10: a series of two dimensions and no column, of shape \<open>(n, 0)\<close>, is rejected
  with \<open>ValueError\<close> as well.
\<close>

theorem dfgls_zero_columns:
  assumes "shape x = [n, 0]"
  shows "dfgls g x regression maxlag autolag s = (Inl ValueError, s)"
  using assms by (simp add: dfgls_def ndim_def)

text \<open>
  The theorem at shape \<open>(4, 0)\<close>.
\<close>

theorem dfgls_zero_columns_witness:
  "dfgls example_globals \<lparr>base = 0, shape = [4, 0]\<rparr> ''c'' None (Some ''AIC'') example_state
     = (Inl ValueError, example_state)"
  using dfgls_zero_columns [of "\<lparr>base = 0, shape = [4, 0]\<rparr>" 4 example_globals "''c''" None "Some ''AIC''" example_state]
  by simp

end
